theory Spec2Isabelle
  imports
    Complex_Main
    "HOL-Library.AList"
    "HOL-Library.Char_ord"
    "HOL-Library.List_Lexorder"
    "HOL-Library.Product_Lexorder"
    "HOL-Library.Log_Nat"
    "HOL-Library.Multiset"
begin

section \<open>Values held in documents and request payloads\<close>

text \<open>
  A value as it appears in a parsed JSON request body and in the data of a stored
  document (\<^verbatim>\<open>doc.data()\<close>). \<open>JTimestamp ms\<close> is the store-native temporal value
  (a Timestamp object, the only value with a \<^verbatim>\<open>toDate\<close> method); every timestamp this
  server writes comes from a JavaScript Date, so it is kept at millisecond precision as
  milliseconds since the epoch. An object is its list of properties in insertion order,
  with unique keys. Numbers are the finite ones, held exactly.
\<close>

datatype jv =
    JNull
  | JBool bool
  | JNum rat
  | JStr string
  | JArr "jv list"
  | JObj "(string \<times> jv) list"
  | JTimestamp int

type_synonym obj = "(string \<times> jv) list"

text \<open>Property read \<^verbatim>\<open>o[k]\<close>: \<open>None\<close> is \<^verbatim>\<open>undefined\<close>.\<close>

definition getProp :: "obj \<Rightarrow> string \<Rightarrow> jv option" where
  "getProp ob k = map_of ob k"

text \<open>
  Object spread \<^verbatim>\<open>{...acc, ...src}\<close>: the properties of \<open>src\<close> are assigned in order onto
  \<open>acc\<close>; an existing key keeps its position and takes the new value, a new key goes last.
\<close>

definition spread :: "obj \<Rightarrow> obj \<Rightarrow> obj" where
  "spread acc src = foldl (\<lambda>a kv. AList.update (fst kv) (snd kv) a) acc src"

text \<open>JavaScript truthiness of a property read.\<close>

fun truthy :: "jv option \<Rightarrow> bool" where
  "truthy None = False"
| "truthy (Some JNull) = False"
| "truthy (Some (JBool b)) = b"
| "truthy (Some (JNum q)) = (q \<noteq> 0)"
| "truthy (Some (JStr s)) = (s \<noteq> [])"
| "truthy (Some (JArr xs)) = True"
| "truthy (Some (JObj fs)) = True"
| "truthy (Some (JTimestamp t)) = True"

section \<open>Errors and responses\<close>

text \<open>
  Exceptions the handlers can meet. \<open>TypeError\<close>: calling a \<^verbatim>\<open>toDate\<close> property that is
  not a function. \<open>RangeError\<close>: \<^verbatim>\<open>toISOString\<close> of an invalid Date. The others are
  raised by the document store: a value or an update map it refuses to write, the
  generated identifier already in use, the document to update missing.
\<close>

datatype error = TypeError | RangeError | InvalidArgument | AlreadyExists | NotFound

text \<open>
  The body handed to \<^verbatim>\<open>res.json\<close>: a value, or \<^verbatim>\<open>{ message: error.message }\<close> for a
  caught error.
\<close>

datatype body = Value jv | ErrorMessage error

datatype response = Resp nat body

fun status :: "response \<Rightarrow> nat" where
  "status (Resp c b) = c"

section \<open>Dates\<close>

text \<open>
  A JavaScript Date is its time value: \<open>Some ms\<close>, or \<open>None\<close> for an Invalid Date (NaN).
\<close>

type_synonym jsdate = "int option"

definition msPerDay :: int where
  "msPerDay = 86400000"

text \<open>\<^verbatim>\<open>TimeClip\<close> of a number: NaN beyond 8.64e15 ms, else truncated toward zero.\<close>

definition timeClip :: "rat \<Rightarrow> jsdate" where
  "timeClip q =
     (if \<bar>q\<bar> > 8640000000000000 then None
      else Some (if 0 \<le> q then \<lfloor>q\<rfloor> else - \<lfloor>- q\<rfloor>))"

text \<open>
  What one request sees of its surroundings: the clock read by \<^verbatim>\<open>new Date()\<close>, the
  identifier the store generates for an added document, \<^verbatim>\<open>Date.parse\<close> on the string
  form of a string, array or object (its grammar is the JavaScript engine's), and the
  local time zone adjustment of the server (\<^verbatim>\<open>LocalTZA(t, true)\<close> for a UTC time,
  \<^verbatim>\<open>LocalTZA(t, false)\<close> for a local time).
\<close>

record env =
  now :: int
  newId :: string
  parseDate :: "jv \<Rightarrow> jsdate"
  tzaUtc :: "int \<Rightarrow> int"
  tzaLocal :: "int \<Rightarrow> int"

text \<open>\<^verbatim>\<open>new Date(v)\<close> for a property read \<open>v\<close>.\<close>

fun newDate :: "env \<Rightarrow> jv option \<Rightarrow> jsdate" where
  "newDate e None = None"
| "newDate e (Some JNull) = Some 0"
| "newDate e (Some (JBool b)) = Some (if b then 1 else 0)"
| "newDate e (Some (JNum q)) = timeClip q"
| "newDate e (Some v) = parseDate e v"

subsection \<open>toISOString\<close>

definition digit :: "nat \<Rightarrow> char" where
  "digit d = ''0123456789'' ! (d mod 10)"

definition pad2 :: "nat \<Rightarrow> string" where
  "pad2 n = [digit (n div 10), digit n]"

definition pad3 :: "nat \<Rightarrow> string" where
  "pad3 n = [digit (n div 100), digit (n div 10), digit n]"

definition pad4 :: "nat \<Rightarrow> string" where
  "pad4 n = [digit (n div 1000), digit (n div 100), digit (n div 10), digit n]"

definition pad6 :: "nat \<Rightarrow> string" where
  "pad6 n = [digit (n div 100000), digit (n div 10000)] @ pad4 n"

text \<open>Year, month and day of a day number counted from 1970-01-01 (proleptic Gregorian).\<close>

definition civil :: "int \<Rightarrow> int \<times> nat \<times> nat" where
  "civil days =
     (let z = days + 719468;
          era = z div 146097;
          doe = z mod 146097;
          yoe = (doe - doe div 1460 + doe div 36524 - doe div 146096) div 365;
          doy = doe - (365 * yoe + yoe div 4 - yoe div 100);
          mp = (5 * doy + 2) div 153;
          d = doy - (153 * mp + 2) div 5 + 1;
          m = (if mp < 10 then mp + 3 else mp - 9);
          y = yoe + era * 400 + (if m \<le> 2 then 1 else 0)
      in (y, nat m, nat d))"

definition isoYear :: "int \<Rightarrow> string" where
  "isoYear y =
     (if 0 \<le> y \<and> y \<le> 9999 then pad4 (nat y)
      else (if y < 0 then ''-'' else ''+'') @ pad6 (nat \<bar>y\<bar>))"

text \<open>The text \<^verbatim>\<open>YYYY-MM-DDTHH:mm:ss.sssZ\<close> of a time value.\<close>

definition isoString :: "int \<Rightarrow> string" where
  "isoString ms =
     (let (y, m, dd) = civil (ms div msPerDay);
          t = nat (ms mod msPerDay)
      in isoYear y @ ''-'' @ pad2 m @ ''-'' @ pad2 dd @ ''T''
         @ pad2 (t div 3600000) @ '':'' @ pad2 (t div 60000 mod 60) @ '':''
         @ pad2 (t div 1000 mod 60) @ ''.'' @ pad3 (t mod 1000) @ ''Z'')"

text \<open>\<^verbatim>\<open>Date.prototype.toISOString\<close>: a RangeError on an Invalid Date.\<close>

definition toISOString :: "jsdate \<Rightarrow> error + string" where
  "toISOString d = (case d of None \<Rightarrow> Inl RangeError | Some ms \<Rightarrow> Inr (isoString ms))"

text \<open>\<^verbatim>\<open>Timestamp.toDate\<close>: a Date is valid within 8.64e15 ms of the epoch.\<close>

definition toDate :: "int \<Rightarrow> jsdate" where
  "toDate ms = (if \<bar>ms\<bar> > 8640000000000000 then None else Some ms)"

section \<open>Shaping a retrieved document\<close>

type_synonym doc = "string \<times> obj"

text \<open>
  One property of \<^verbatim>\<open>convertTimestamps\<close>: a truthy value of type object with a \<^verbatim>\<open>toDate\<close>
  member is replaced by \<^verbatim>\<open>toDate().toISOString()\<close>. A Timestamp has the method; a map
  with a key \<^verbatim>\<open>toDate\<close> passes the test too and the call throws; an array has no such
  member.
\<close>

fun convertValue :: "jv \<Rightarrow> error + jv" where
  "convertValue (JTimestamp ms) =
     (case toISOString (toDate ms) of Inl e \<Rightarrow> Inl e | Inr s \<Rightarrow> Inr (JStr s))"
| "convertValue (JObj fs) =
     (if ''toDate'' \<in> set (map fst fs) then Inl TypeError else Inr (JObj fs))"
| "convertValue v = Inr v"

text \<open>The \<^verbatim>\<open>forEach\<close> over \<^verbatim>\<open>Object.keys(data)\<close>, filling \<open>converted\<close>.\<close>

fun convertFields :: "obj \<Rightarrow> obj \<Rightarrow> error + obj" where
  "convertFields [] converted = Inr converted"
| "convertFields ((k, v) # rest) converted =
     (case convertValue v of
        Inl e \<Rightarrow> Inl e
      | Inr v' \<Rightarrow> convertFields rest (AList.update k v' converted))"

text \<open>\<^verbatim>\<open>return { id: doc.id, ...converted }\<close>: \<open>id\<close> is set first, then the spread.\<close>

definition convertTimestamps :: "doc \<Rightarrow> error + obj" where
  "convertTimestamps d =
     (case convertFields (snd d) [] of
        Inl e \<Rightarrow> Inl e
      | Inr converted \<Rightarrow> Inr (spread [(''id'', JStr (fst d))] converted))"

section \<open>The document store\<close>

text \<open>
  The \<^verbatim>\<open>tasks\<close> collection: the stored documents, each an identifier with its data;
  identifiers are unique. The store is the external document database; what follows is
  the behaviour of the calls the handlers make on it.
\<close>

type_synonym store = "doc list"

text \<open>The data of the document of the collection with identifier \<open>i\<close>, if there is one.\<close>

definition getDoc :: "store \<Rightarrow> string \<Rightarrow> obj option" where
  "getDoc s i = map_of s i"

text \<open>
  \<^verbatim>\<open>collection('tasks').doc(documentPath)\<close> reads its argument as a path relative to the
  collection, its segments separated by slashes, a leading or trailing slash ignored. It
  throws on the empty string, on a doubled slash, and when the path does not name a
  document, which is when the number of its segments is even. The result is the
  reference, given by its segments.
\<close>

fun splitSlash :: "string \<Rightarrow> string list" where
  "splitSlash [] = [[]]"
| "splitSlash (c # cs) =
     (if c = CHR ''/'' then [] # splitSlash cs
      else (case splitSlash cs of [] \<Rightarrow> [[c]] | w # ws \<Rightarrow> (c # w) # ws))"

fun hasDoubleSlash :: "string \<Rightarrow> bool" where
  "hasDoubleSlash (a # b # cs) = ((a = CHR ''/'' \<and> b = CHR ''/'') \<or> hasDoubleSlash (b # cs))"
| "hasDoubleSlash cs = False"

definition docRef :: "string \<Rightarrow> error + string list" where
  "docRef documentPath =
     (if documentPath = [] \<or> hasDoubleSlash documentPath then Inl InvalidArgument
      else (let segs = filter (\<lambda>seg. seg \<noteq> []) (splitSlash documentPath) in
            if even (length segs) then Inl InvalidArgument else Inr segs))"

text \<open>
  \<^verbatim>\<open>taskRef.get()\<close>: the snapshot of the document, its identifier with its data, and
  \<open>None\<close> for a snapshot with \<^verbatim>\<open>exists\<close> false. A reference of one segment names a
  document of the collection; a longer one names a document of a collection nested below
  a task, and the store holds none of those.
\<close>

definition getRef :: "store \<Rightarrow> string list \<Rightarrow> doc option" where
  "getRef s taskRef =
     (case taskRef of
        [i] \<Rightarrow> (case getDoc s i of None \<Rightarrow> None | Some d \<Rightarrow> Some (i, d))
      | _ \<Rightarrow> None)"

text \<open>
  A top-level field value handed to the store for writing: a value taken from the JSON
  payload, or a JavaScript Date built by the handler.
\<close>

datatype wv = Plain jv | DateObj jsdate

type_synonym wobj = "(string \<times> wv) list"

text \<open>
  The store serialises a Date with \<^verbatim>\<open>Timestamp.fromDate\<close>, which throws on an Invalid
  Date and on one outside the years 0001 to 9999.
\<close>

definition fromDate :: "jsdate \<Rightarrow> error + jv" where
  "fromDate d =
     (case d of
        None \<Rightarrow> Inl InvalidArgument
      | Some ms \<Rightarrow>
          (if ms div 1000 < - 62135596800 \<or> 253402300799 < ms div 1000
           then Inl InvalidArgument else Inr (JTimestamp ms)))"

fun encodeValue :: "wv \<Rightarrow> error + jv" where
  "encodeValue (Plain v) = Inr v"
| "encodeValue (DateObj d) = fromDate d"

fun encodeFields :: "wobj \<Rightarrow> error + obj" where
  "encodeFields [] = Inr []"
| "encodeFields ((k, w) # rest) =
     (case encodeValue w of
        Inl e \<Rightarrow> Inl e
      | Inr v \<Rightarrow> (case encodeFields rest of Inl e \<Rightarrow> Inl e | Inr r \<Rightarrow> Inr ((k, v) # r)))"

text \<open>
  \<^verbatim>\<open>collection('tasks').add(data)\<close>: the data are serialised, then the document is
  created under the generated identifier; creation fails when that identifier is taken.
  The result is the new identifier and the new collection.
\<close>

definition add :: "string \<Rightarrow> store \<Rightarrow> wobj \<Rightarrow> error + (string \<times> store)" where
  "add nid s taskData =
     (case encodeFields taskData of
        Inl e \<Rightarrow> Inl e
      | Inr flds \<Rightarrow>
          (if nid \<in> set (map fst s) then Inl AlreadyExists
           else Inr (nid, s @ [(nid, flds)])))"

text \<open>
  \<^verbatim>\<open>update(data)\<close> reads each key as a field path, its segments separated by dots.
\<close>

fun splitDot :: "string \<Rightarrow> string list" where
  "splitDot [] = [[]]"
| "splitDot (c # cs) =
     (if c = CHR ''.'' then [] # splitDot cs
      else (case splitDot cs of [] \<Rightarrow> [[c]] | w # ws \<Rightarrow> (c # w) # ws))"

text \<open>
  A key is refused when a segment is empty (a leading, trailing or doubled dot, or the
  empty key) or when it holds one of the characters \<^verbatim>\<open>*~/[]\<close>.
\<close>

definition validFieldPath :: "string \<Rightarrow> bool" where
  "validFieldPath k =
     (list_all (\<lambda>seg. seg \<noteq> []) (splitDot k) \<and> list_all (\<lambda>c. c \<notin> set ''*~/[]'') k)"

fun isPrefixOf :: "string list \<Rightarrow> string list \<Rightarrow> bool" where
  "isPrefixOf [] q = True"
| "isPrefixOf (a # p) [] = False"
| "isPrefixOf (a # p) (b # q) = (a = b \<and> isPrefixOf p q)"

text \<open>Two paths of one update conflict when one is a prefix of the other.\<close>

fun conflicting :: "string list list \<Rightarrow> bool" where
  "conflicting [] = False"
| "conflicting (p # ps) =
     (list_ex (\<lambda>q. isPrefixOf p q \<or> isPrefixOf q p) ps \<or> conflicting ps)"

text \<open>
  Writing a value at a field path: the last segment is set in the map the earlier
  segments lead to; a segment that is missing, or is not a map, becomes a fresh map.
\<close>

fun setPath :: "string list \<Rightarrow> jv \<Rightarrow> obj \<Rightarrow> obj" where
  "setPath [] v ob = ob"
| "setPath [k] v ob = AList.update k v ob"
| "setPath (k # ks) v ob =
     AList.update k
       (JObj (setPath ks v (case map_of ob k of Some (JObj sub) \<Rightarrow> sub | _ \<Rightarrow> []))) ob"

definition applyUpdate :: "obj \<Rightarrow> obj \<Rightarrow> obj" where
  "applyUpdate flds ob = foldl (\<lambda>a kv. setPath (splitDot (fst kv)) (snd kv) a) ob flds"

text \<open>
  \<^verbatim>\<open>doc(id).update(data)\<close>: refused when the update map is empty, a key is not a valid
  field path, two paths conflict, or a Date does not serialise; fails when the document
  does not exist; otherwise only the document \<open>i\<close> changes, at the paths given.
\<close>

definition update :: "store \<Rightarrow> string \<Rightarrow> wobj \<Rightarrow> error + store" where
  "update s i updateData =
     (if updateData = [] then Inl InvalidArgument
      else if \<not> list_all validFieldPath (map fst updateData) then Inl InvalidArgument
      else if conflicting (map (splitDot \<circ> fst) updateData) then Inl InvalidArgument
      else (case encodeFields updateData of
              Inl e \<Rightarrow> Inl e
            | Inr flds \<Rightarrow>
                (if i \<notin> set (map fst s) then Inl NotFound
                 else Inr (map (\<lambda>d. if fst d = i then (i, applyUpdate flds (snd d)) else d) s))))"

text \<open>\<^verbatim>\<open>doc(id).delete()\<close>.\<close>

definition deleteDoc :: "store \<Rightarrow> string \<Rightarrow> store" where
  "deleteDoc s i = filter (\<lambda>d. fst d \<noteq> i) s"

subsection \<open>The ordered query\<close>

text \<open>
  \<^verbatim>\<open>orderBy('createdAt', 'desc')\<close> returns the documents that have the field, by falling
  value of the field and, among equal values, by falling identifier. The store orders
  values of different types by type (null, boolean, number, timestamp, string, array,
  map) and values of one type by content; \<open>vkey\<close> maps a value to a list of tokens whose
  lexicographic order is that order.
\<close>

type_synonym tok = "nat \<times> rat \<times> string"

fun vkey :: "jv \<Rightarrow> tok list" where
  "vkey JNull = [(1, 0, [])]"
| "vkey (JBool b) = [(2, if b then 1 else 0, [])]"
| "vkey (JNum q) = [(3, q, [])]"
| "vkey (JTimestamp ms) = [(4, of_int ms, [])]"
| "vkey (JStr s) = [(5, 0, s)]"
| "vkey (JArr xs) = (6, 0, []) # concat (map vkey xs) @ [(0, 0, [])]"
| "vkey (JObj fs) =
     (7, 0, []) #
     concat (map (\<lambda>ke. (5, 0, fst ke) # snd ke)
               (sort_key fst (map (\<lambda>kv. (fst kv, vkey (snd kv))) fs)))
     @ [(0, 0, [])]"

definition hasCreatedAt :: "doc \<Rightarrow> bool" where
  "hasCreatedAt d = (getProp (snd d) ''createdAt'' \<noteq> None)"

definition orderKey :: "doc \<Rightarrow> tok list \<times> string" where
  "orderKey d =
     (case getProp (snd d) ''createdAt'' of
        None \<Rightarrow> ([], fst d)
      | Some v \<Rightarrow> (vkey v, fst d))"

definition orderByCreatedAtDesc :: "store \<Rightarrow> doc list" where
  "orderByCreatedAtDesc s = rev (sort_key orderKey (filter hasCreatedAt s))"

section \<open>The request handlers\<close>

text \<open>\<^verbatim>\<open>docs.map(f)\<close> for an \<open>f\<close> that may throw: the first exception ends the map.\<close>

fun mapE :: "('a \<Rightarrow> error + 'b) \<Rightarrow> 'a list \<Rightarrow> error + 'b list" where
  "mapE f [] = Inr []"
| "mapE f (x # xs) =
     (case f x of
        Inl e \<Rightarrow> Inl e
      | Inr y \<Rightarrow> (case mapE f xs of Inl e \<Rightarrow> Inl e | Inr ys \<Rightarrow> Inr (y # ys)))"

definition taskNotFound :: body where
  "taskNotFound = Value (JObj [(''message'', JStr ''Task not found'')])"

definition taskDeleted :: body where
  "taskDeleted = Value (JObj [(''message'', JStr ''Task deleted successfully'')])"

text \<open>\<^verbatim>\<open>GET /api/tasks\<close>.\<close>

definition getTasks :: "store \<Rightarrow> response" where
  "getTasks s =
     (let docs = orderByCreatedAtDesc s in
      if docs = [] then Resp 200 (Value (JArr []))
      else (case mapE convertTimestamps docs of
              Inl e \<Rightarrow> Resp 500 (ErrorMessage e)
            | Inr tasks \<Rightarrow> Resp 200 (Value (JArr (map JObj tasks)))))"

text \<open>\<^verbatim>\<open>req.body.completed || false\<close>.\<close>

definition orFalse :: "jv option \<Rightarrow> jv" where
  "orFalse v = (case v of None \<Rightarrow> JBool False | Some x \<Rightarrow> if truthy (Some x) then x else JBool False)"

definition plain :: "obj \<Rightarrow> wobj" where
  "plain ob = map (\<lambda>kv. (fst kv, Plain (snd kv))) ob"

text \<open>
  The \<open>taskData\<close> of \<^verbatim>\<open>POST /api/tasks\<close>: the payload spread first, then \<open>date\<close>,
  \<open>createdAt\<close> and \<open>completed\<close> assigned over it.
\<close>

definition taskData :: "env \<Rightarrow> obj \<Rightarrow> wobj" where
  "taskData e reqBody =
     AList.update ''completed'' (Plain (orFalse (getProp reqBody ''completed'')))
       (AList.update ''createdAt'' (DateObj (Some (now e)))
          (AList.update ''date'' (DateObj (newDate e (getProp reqBody ''date'')))
             (plain (spread [] reqBody))))"

text \<open>
  \<^verbatim>\<open>POST /api/tasks\<close>: the response and the collection afterwards. An exception anywhere
  in the handler, also after the write, is answered with 400.
\<close>

definition postTask :: "env \<Rightarrow> store \<Rightarrow> obj \<Rightarrow> response \<times> store" where
  "postTask e s reqBody =
     (case add (newId e) s (taskData e reqBody) of
        Inl err \<Rightarrow> (Resp 400 (ErrorMessage err), s)
      | Inr (nid, s') \<Rightarrow>
          (case getDoc s' nid of
             None \<Rightarrow> (Resp 400 (ErrorMessage TypeError), s')
           | Some newTask \<Rightarrow>
               (case convertTimestamps (nid, newTask) of
                  Inl err \<Rightarrow> (Resp 400 (ErrorMessage err), s')
                | Inr t \<Rightarrow> (Resp 201 (Value (JObj t)), s'))))"

text \<open>The \<open>updateData\<close> of \<^verbatim>\<open>PUT /api/tasks/:id\<close>: a truthy \<open>date\<close> becomes a Date.\<close>

definition updateData :: "env \<Rightarrow> obj \<Rightarrow> wobj" where
  "updateData e reqBody =
     (let u = spread [] reqBody in
      if truthy (getProp u ''date'')
      then AList.update ''date'' (DateObj (newDate e (getProp u ''date''))) (plain u)
      else plain u)"

text \<open>
  \<^verbatim>\<open>PUT /api/tasks/:id\<close>. The reference is built inside the \<^verbatim>\<open>try\<close>: an identifier
  that \<^verbatim>\<open>doc\<close> refuses is answered with 400 by the \<^verbatim>\<open>catch\<close>.
\<close>

definition putTask :: "env \<Rightarrow> store \<Rightarrow> string \<Rightarrow> obj \<Rightarrow> response \<times> store" where
  "putTask e s taskId reqBody =
     (case docRef taskId of
        Inl err \<Rightarrow> (Resp 400 (ErrorMessage err), s)
      | Inr taskRef \<Rightarrow>
          (case getRef s taskRef of
             None \<Rightarrow> (Resp 404 taskNotFound, s)
           | Some taskDoc \<Rightarrow>
               (case update s (fst taskDoc) (updateData e reqBody) of
                  Inl err \<Rightarrow> (Resp 400 (ErrorMessage err), s)
                | Inr s' \<Rightarrow>
                    (case getRef s' taskRef of
                       None \<Rightarrow> (Resp 400 (ErrorMessage TypeError), s')
                     | Some updatedTask \<Rightarrow>
                         (case convertTimestamps updatedTask of
                            Inl err \<Rightarrow> (Resp 400 (ErrorMessage err), s')
                          | Inr t \<Rightarrow> (Resp 200 (Value (JObj t)), s'))))))"

text \<open>
  \<^verbatim>\<open>DELETE /api/tasks/:id\<close>. Here the \<^verbatim>\<open>catch\<close> answers 500.
\<close>

definition deleteTask :: "store \<Rightarrow> string \<Rightarrow> response \<times> store" where
  "deleteTask s taskId =
     (case docRef taskId of
        Inl err \<Rightarrow> (Resp 500 (ErrorMessage err), s)
      | Inr taskRef \<Rightarrow>
          (case getRef s taskRef of
             None \<Rightarrow> (Resp 404 taskNotFound, s)
           | Some taskDoc \<Rightarrow> (Resp 200 taskDeleted, deleteDoc s (fst taskDoc))))"

subsection \<open>Statistics\<close>













section \<open>Vocabulary of the properties\<close>

text \<open>
  The shaping the specification asks of one field: a temporal value becomes its ISO-8601
  text, any other value is passed through as it is.
\<close>

fun shapedValue :: "jv \<Rightarrow> jv" where
  "shapedValue (JTimestamp ms) = JStr (isoString ms)"
| "shapedValue v = v"

text \<open>
  The values \<^verbatim>\<open>convertTimestamps\<close> shapes without an exception: not a map with a key
  \<^verbatim>\<open>toDate\<close>, and not a timestamp beyond the range of a JavaScript Date.
\<close>

fun convertible :: "jv \<Rightarrow> bool" where
  "convertible (JTimestamp ms) = (\<bar>ms\<bar> \<le> 8640000000000000)"
| "convertible (JObj fs) = (''toDate'' \<notin> set (map fst fs))"
| "convertible v = True"

text \<open>A document all of whose fields are shaped without an exception.\<close>

definition shapeable :: "doc \<Rightarrow> bool" where
  "shapeable d = list_all convertible (map snd (snd d))"

text \<open>
  The order of the query on two documents: by the \<open>createdAt\<close> values alone, in the
  order of the store.
\<close>

definition createdAtLe :: "doc \<Rightarrow> doc \<Rightarrow> bool" where
  "createdAtLe a b = (fst (orderKey a) \<le> fst (orderKey b))"

text \<open>The collections the handlers can produce, starting from the empty one.\<close>

inductive reachable :: "store \<Rightarrow> bool" where
  initial: "reachable []"
| created: "reachable s \<Longrightarrow> reachable (snd (postTask e s reqBody))"
| updated: "reachable s \<Longrightarrow> reachable (snd (putTask e s taskId reqBody))"
| deleted: "reachable s \<Longrightarrow> reachable (snd (deleteTask s taskId))"











section \<open>Sample requests and collections\<close>

text \<open>
  Concrete surroundings and collections on which the theorems below are instantiated.
  \<open>sampleParse\<close> is \<^verbatim>\<open>Date.parse\<close> on the few strings the samples use.
\<close>

definition sampleParse :: "jv \<Rightarrow> jsdate" where
  "sampleParse v =
     map_of
       [(JStr ''2024-03-15'', 1710460800000),
        (JStr ''2024-03-15T00:00:00.000Z'', 1710460800000),
        (JStr ''2024-03-15T12:00:00.000Z'', 1710504000000),
        (JStr ''2024-03-14T12:00:00.000Z'', 1710417600000),
        (JStr ''2024-10-27T22:30:00.000Z'', 1730068200000),
        (JStr ''2024-10-26T22:30:00.000Z'', 1729981800000),
        (JStr ''2024-10-28T12:00:00.000Z'', 1730116800000),
        (JStr ''2024-10-27T12:00:00.000Z'', 1730030400000)] v"

text \<open>A server on UTC at 2024-03-15 09:30:00 UTC, and five seconds later.\<close>

definition envA :: env where
  "envA = \<lparr>now = 1710495000000, newId = ''idA'', parseDate = sampleParse,
           tzaUtc = (\<lambda>t. 0), tzaLocal = (\<lambda>t. 0)\<rparr>"

definition envB :: env where
  "envB = \<lparr>now = 1710495005000, newId = ''idB'', parseDate = sampleParse,
           tzaUtc = (\<lambda>t. 0), tzaLocal = (\<lambda>t. 0)\<rparr>"


definition taskOne :: doc where
  "taskOne = (''t1'',
     [(''title'', JStr ''Write report''), (''date'', JTimestamp 1710504000000),
      (''createdAt'', JTimestamp 1710400000000), (''completed'', JBool True)])"

definition taskTwo :: doc where
  "taskTwo = (''t2'',
     [(''title'', JStr ''Buy milk''), (''date'', JTimestamp 1710417600000),
      (''createdAt'', JTimestamp 1710300000000), (''completed'', JBool False)])"

text \<open>Two create requests, the documents they store and the tasks they answer with.\<close>

definition bodyA :: obj where
  "bodyA = [(''title'', JStr ''Task A''), (''date'', JStr ''2024-03-15'')]"

definition bodyB :: obj where
  "bodyB = [(''title'', JStr ''Task B''), (''date'', JStr ''2024-03-15''),
            (''priority'', JStr ''high'')]"

definition docA :: doc where
  "docA = (''idA'',
     [(''title'', JStr ''Task A''), (''date'', JTimestamp 1710460800000),
      (''createdAt'', JTimestamp 1710495000000), (''completed'', JBool False)])"

definition docB :: doc where
  "docB = (''idB'',
     [(''title'', JStr ''Task B''), (''date'', JTimestamp 1710460800000),
      (''priority'', JStr ''high''),
      (''createdAt'', JTimestamp 1710495005000), (''completed'', JBool False)])"

definition shapedA :: jv where
  "shapedA = JObj
     [(''id'', JStr ''idA''), (''title'', JStr ''Task A''),
      (''date'', JStr (isoString 1710460800000)),
      (''createdAt'', JStr (isoString 1710495000000)), (''completed'', JBool False)]"

definition shapedB :: jv where
  "shapedB = JObj
     [(''id'', JStr ''idB''), (''title'', JStr ''Task B''),
      (''date'', JStr (isoString 1710460800000)), (''priority'', JStr ''high''),
      (''createdAt'', JStr (isoString 1710495005000)), (''completed'', JBool False)]"






text \<open>
  A create request handled in the same millisecond as \<open>envA\<close> reads the clock, under a
  generated identifier that sorts after that of \<open>envA\<close>; the documents and answers of
  creating first with it and then with \<open>envA\<close>.
\<close>

definition envFirst :: env where
  "envFirst = \<lparr>now = 1710495000000, newId = ''idZ'', parseDate = sampleParse,
           tzaUtc = (\<lambda>t. 0), tzaLocal = (\<lambda>t. 0)\<rparr>"

definition docFirst :: doc where
  "docFirst = (''idZ'',
     [(''title'', JStr ''Task A''), (''date'', JTimestamp 1710460800000),
      (''createdAt'', JTimestamp 1710495000000), (''completed'', JBool False)])"

definition docSecond :: doc where
  "docSecond = (''idA'',
     [(''title'', JStr ''Task B''), (''date'', JTimestamp 1710460800000),
      (''priority'', JStr ''high''),
      (''createdAt'', JTimestamp 1710495000000), (''completed'', JBool False)])"

definition shapedFirst :: jv where
  "shapedFirst = JObj
     [(''id'', JStr ''idZ''), (''title'', JStr ''Task A''),
      (''date'', JStr (isoString 1710460800000)),
      (''createdAt'', JStr (isoString 1710495000000)), (''completed'', JBool False)]"

definition shapedSecond :: jv where
  "shapedSecond = JObj
     [(''id'', JStr ''idA''), (''title'', JStr ''Task B''),
      (''date'', JStr (isoString 1710460800000)), (''priority'', JStr ''high''),
      (''createdAt'', JStr (isoString 1710495000000)), (''completed'', JBool False)]"



section \<open>Properties of the handlers\<close>

subsection \<open>Reading the collection\<close>

lemma getDoc_deleteDoc: "getDoc (deleteDoc s i) j = (if j = i then None else getDoc s j)"
  by (induction s) (auto simp: getDoc_def deleteDoc_def)

subsection \<open>Objects\<close>

lemma keys_spread: "fst ` set (spread acc src) = fst ` set acc \<union> fst ` set src"
  unfolding spread_def
  by (induction src arbitrary: acc) (auto simp: dom_update)

lemma getProp_update: "getProp (AList.update k v ob) k' = (if k' = k then Some v else getProp ob k')"
  by (simp add: getProp_def update_conv')

lemma getProp_None_iff: "getProp ob k = None \<longleftrightarrow> k \<notin> fst ` set ob"
  by (simp add: getProp_def map_of_eq_None_iff)

lemma map_of_plain: "map_of (plain ob) k = map_option Plain (map_of ob k)"
  by (induction ob) (auto simp: plain_def)

subsection \<open>Serialising the data of a write\<close>




lemma fromDate_value: "fromDate d = Inr v \<Longrightarrow> \<exists>ms. d = Some ms \<and> v = JTimestamp ms"
  by (auto simp: fromDate_def split: option.splits if_splits)


lemma encodeFields_lookup:
  "encodeFields ws = Inr r \<Longrightarrow>
     map_of r k = (case map_of ws k of None \<Rightarrow> None
                   | Some w \<Rightarrow> (case encodeValue w of Inl err \<Rightarrow> None | Inr v \<Rightarrow> Some v))"
proof (induction ws arbitrary: r)
  case Nil
  then show ?case by simp
next
  case (Cons a ws)
  obtain k' w' where a: "a = (k', w')" by (cases a)
  from Cons.prems a obtain v' r' where
    v: "encodeValue w' = Inr v'" and r': "encodeFields ws = Inr r'" and r: "r = (k', v') # r'"
    by (auto split: sum.splits)
  from Cons.IH [OF r'] a v r show ?case by simp
qed


subsection \<open>The data of a create\<close>

lemma taskData_lookup:
  "map_of (taskData e reqBody) k =
     (if k = ''completed'' then Some (Plain (orFalse (getProp reqBody ''completed'')))
      else if k = ''createdAt'' then Some (DateObj (Some (now e)))
      else if k = ''date'' then Some (DateObj (newDate e (getProp reqBody ''date'')))
      else map_option Plain (map_of (spread [] reqBody) k))"
  by (simp add: taskData_def update_conv' map_of_plain)




lemma getDoc_append_new:
  "nid \<notin> fst ` set s \<Longrightarrow> getDoc (s @ [(nid, d)]) nid = Some d"
  by (simp add: getDoc_def map_add_def map_of_eq_None_iff [THEN iffD2])

lemma post_stores:
  assumes "postTask e s reqBody = (r, s')" and "s' \<noteq> s \<or> status r = 201"
  shows "\<exists>data. encodeFields (taskData e reqBody) = Inr data \<and> s' = s @ [(newId e, data)]
           \<and> newId e \<notin> fst ` set s"
  using assms
  by (auto simp: postTask_def add_def getDoc_append_new split: sum.splits if_splits option.splits)


subsection \<open>Shaping: what the conversion computes\<close>

lemma convertValue_convertible:
  "convertible v \<Longrightarrow> convertValue v = Inr (shapedValue v)"
  by (cases v) (auto simp: toISOString_def toDate_def)

lemma convertFields_spread:
  "list_all convertible (map snd data) \<Longrightarrow>
     convertFields data acc = Inr (spread acc (map (\<lambda>kv. (fst kv, shapedValue (snd kv))) data))"
  by (induction data arbitrary: acc) (auto simp: spread_def convertValue_convertible)

lemma map_of_spread:
  "distinct (map fst src) \<Longrightarrow>
     map_of (spread acc src) k = (case map_of src k of Some v \<Rightarrow> Some v | None \<Rightarrow> map_of acc k)"
proof (induction src arbitrary: acc)
  case Nil
  then show ?case by (simp add: spread_def)
next
  case (Cons a src)
  obtain k' v' where a: "a = (k', v')" by (cases a)
  from Cons.prems a have d: "distinct (map fst src)" and n: "map_of src k' = None"
    by (auto simp: map_of_eq_None_iff)
  have "map_of (spread acc (a # src)) k = map_of (spread (AList.update k' v' acc) src) k"
    by (simp add: spread_def a)
  also have "\<dots> = (case map_of src k of Some v \<Rightarrow> Some v
                    | None \<Rightarrow> map_of (AList.update k' v' acc) k)"
    by (rule Cons.IH [OF d])
  finally show ?case using n a by (auto simp: update_conv' split: option.splits)
qed

lemma distinct_spread: "distinct (map fst acc) \<Longrightarrow> distinct (map fst (spread acc src))"
  unfolding spread_def by (induction src arbitrary: acc) (auto simp: distinct_update)

lemma shaped_lookup:
  "map_of (map (\<lambda>kv. (fst kv, shapedValue (snd kv))) data) k = map_option shapedValue (map_of data k)"
  by (induction data) auto

lemma convertTimestamps_shape:
  assumes "distinct (map fst data)" and "list_all convertible (map snd data)"
  shows "\<exists>r. convertTimestamps (i, data) = Inr r \<and>
           (\<forall>k. getProp r k =
              (case getProp data k of
                 Some v \<Rightarrow> Some (shapedValue v)
               | None \<Rightarrow> if k = ''id'' then Some (JStr i) else None))"
proof -
  let ?sh = "map (\<lambda>kv. (fst kv, shapedValue (snd kv))) data"
  have c: "convertFields data [] = Inr (spread [] ?sh)"
    using assms(2) by (rule convertFields_spread)
  have d: "distinct (map fst ?sh)" using assms(1) by (simp add: comp_def)
  have l: "map_of (spread [] ?sh) k = map_option shapedValue (map_of data k)" for k
    using map_of_spread [OF d, of "[]" k] by (simp add: shaped_lookup split: option.splits)
  have d': "distinct (map fst (spread [] ?sh))" by (rule distinct_spread) simp
  have "map_of (spread [(''id'', JStr i)] (spread [] ?sh)) k =
          (case map_of data k of Some v \<Rightarrow> Some (shapedValue v)
           | None \<Rightarrow> if k = ''id'' then Some (JStr i) else None)" for k
    using map_of_spread [OF d', of "[(''id'', JStr i)]" k] l [of k]
    by (auto split: option.splits)
  with c show ?thesis by (simp add: convertTimestamps_def getProp_def)
qed

subsection \<open>Update and delete of a missing task\<close>

lemma splitSlash_plain: "CHR ''/'' \<notin> set i \<Longrightarrow> splitSlash i = [i]"
  by (induction i) auto

lemma hasDoubleSlash_plain: "CHR ''/'' \<notin> set i \<Longrightarrow> \<not> hasDoubleSlash i"
  by (induction i rule: hasDoubleSlash.induct) auto

lemma docRef_plain: "i \<noteq> [] \<Longrightarrow> CHR ''/'' \<notin> set i \<Longrightarrow> docRef i = Inr [i]"
  by (simp add: docRef_def splitSlash_plain hasDoubleSlash_plain)

lemma docRef_error: "docRef i = Inl err \<Longrightarrow> err = InvalidArgument"
  by (auto simp: docRef_def Let_def split: if_splits)

lemma getRef_Some: "getRef s taskRef = Some d \<Longrightarrow> taskRef = [fst d] \<and> getDoc s (fst d) = Some (snd d)"
  by (auto simp: getRef_def split: list.splits option.splits)

lemma getRef_single: "getRef s [i] = (case getDoc s i of None \<Rightarrow> None | Some d \<Rightarrow> Some (i, d))"
  by (simp add: getRef_def)

lemma getRef_deleteDoc: "getRef s taskRef = Some d \<Longrightarrow> getRef (deleteDoc s (fst d)) taskRef = None"
  by (auto simp: getRef_def getDoc_deleteDoc split: list.splits option.splits)

text \<open>
  Claim C6, as the code has it. An update whose identifier is a document path of the
  collection and resolves to no task answers 404 with the message \<^verbatim>\<open>Task not found\<close>;
  the handler returns at the existence check, before the update map is built or the write
  attempted, and the collection is left as it was. That holds of every identifier that is
  not empty and has no slash. An identifier that is not a document path is refused when
  the reference is built, before the existence check: the answer is 400, and the
  collection is left as it was too.
\<close>

theorem put_unresolved_id:
  "(docRef taskId = Inr taskRef \<and> getRef s taskRef = None \<longrightarrow>
      putTask e s taskId reqBody = (Resp 404 taskNotFound, s)) \<and>
   (taskId \<noteq> [] \<and> CHR ''/'' \<notin> set taskId \<and> getDoc s taskId = None \<longrightarrow>
      putTask e s taskId reqBody = (Resp 404 taskNotFound, s)) \<and>
   (docRef taskId = Inl err \<longrightarrow>
      putTask e s taskId reqBody = (Resp 400 (ErrorMessage InvalidArgument), s))"
  by (auto simp: putTask_def docRef_plain getRef_single dest: docRef_error)

lemma docRef_t9: "docRef ''t9'' = Inr [''t9'']"
  by (simp add: docRef_def)

lemma docRef_slash: "docRef ''a/b'' = Inl InvalidArgument"
  by (simp add: docRef_def)

theorem put_unresolved_id_witness:
  "docRef ''t9'' = Inr [''t9''] \<and> getRef [taskOne, taskTwo] [''t9''] = None \<and>
   getDoc [taskOne, taskTwo] ''t9'' = None \<and>
   putTask envA [taskOne, taskTwo] ''t9'' [(''createdAt'', JStr ''x''), (''title'', JStr ''y'')]
     = (Resp 404 taskNotFound, [taskOne, taskTwo]) \<and>
   docRef ''a/b'' = Inl InvalidArgument \<and>
   putTask envA [taskOne, taskTwo] ''a/b'' [(''title'', JStr ''y'')]
     = (Resp 400 (ErrorMessage InvalidArgument), [taskOne, taskTwo])"
proof -
  have g: "getDoc [taskOne, taskTwo] ''t9'' = None"
    by (simp add: getDoc_def taskOne_def taskTwo_def)
  then have r: "getRef [taskOne, taskTwo] [''t9''] = None"
    by (simp add: getRef_single)
  have a: "putTask envA [taskOne, taskTwo] ''t9'' [(''createdAt'', JStr ''x''), (''title'', JStr ''y'')]
     = (Resp 404 taskNotFound, [taskOne, taskTwo])"
    using put_unresolved_id [where taskId = "''t9''" and taskRef = "[''t9'']"
        and s = "[taskOne, taskTwo]" and e = envA
        and reqBody = "[(''createdAt'', JStr ''x''), (''title'', JStr ''y'')]"]
      docRef_t9 r by (simp only: simp_thms)
  have b: "putTask envA [taskOne, taskTwo] ''a/b'' [(''title'', JStr ''y'')]
     = (Resp 400 (ErrorMessage InvalidArgument), [taskOne, taskTwo])"
    using put_unresolved_id [where taskId = "''a/b''" and err = InvalidArgument
        and s = "[taskOne, taskTwo]" and e = envA and reqBody = "[(''title'', JStr ''y'')]"]
      docRef_slash by (simp only: simp_thms)
  from docRef_t9 r g a docRef_slash b show ?thesis by (intro conjI)
qed

theorem put_slash_id_counterexample:
  "getDoc [taskOne, taskTwo] ''a/b'' = None \<and>
   putTask envA [taskOne, taskTwo] ''a/b'' [(''title'', JStr ''y'')]
     = (Resp 400 (ErrorMessage InvalidArgument), [taskOne, taskTwo])"
  by (simp add: putTask_def docRef_slash getDoc_def taskOne_def taskTwo_def)

text \<open>
  Claim C7, as the code has it. A delete whose identifier is a document path of the
  collection and resolves to no task answers 404 and changes nothing; that holds of every
  identifier that is not empty and has no slash. A delete of an existing task answers 200
  with the confirmation message and removes the document: it can no longer be read, every
  other document reads as before, and deleting the same identifier again answers 404. An
  identifier that is not a document path is refused when the reference is built: the
  answer is 500, and nothing is changed.
\<close>

theorem delete_outcomes:
  "(docRef taskId = Inr taskRef \<and> getRef s taskRef = None \<longrightarrow>
      deleteTask s taskId = (Resp 404 taskNotFound, s)) \<and>
   (taskId \<noteq> [] \<and> CHR ''/'' \<notin> set taskId \<and> getDoc s taskId = None \<longrightarrow>
      deleteTask s taskId = (Resp 404 taskNotFound, s)) \<and>
   (docRef taskId = Inr taskRef \<and> getRef s taskRef = Some d \<longrightarrow>
      (\<exists>s'. deleteTask s taskId = (Resp 200 taskDeleted, s') \<and>
            getDoc s' (fst d) = None \<and>
            (\<forall>j. j \<noteq> fst d \<longrightarrow> getDoc s' j = getDoc s j) \<and>
            deleteTask s' taskId = (Resp 404 taskNotFound, s'))) \<and>
   (docRef taskId = Inl err \<longrightarrow>
      deleteTask s taskId = (Resp 500 (ErrorMessage InvalidArgument), s))"
  by (auto simp: deleteTask_def docRef_plain getRef_single getDoc_deleteDoc getRef_deleteDoc
           dest: docRef_error)

lemma docRef_t1: "docRef ''t1'' = Inr [''t1'']"
  by (simp add: docRef_def)

theorem delete_outcomes_witness:
  "docRef ''t9'' = Inr [''t9''] \<and> getRef [taskOne, taskTwo] [''t9''] = None \<and>
   deleteTask [taskOne, taskTwo] ''t9'' = (Resp 404 taskNotFound, [taskOne, taskTwo]) \<and>
   docRef ''t1'' = Inr [''t1''] \<and> getRef [taskOne, taskTwo] [''t1''] = Some taskOne \<and>
   deleteTask [taskOne, taskTwo] ''t1'' = (Resp 200 taskDeleted, [taskTwo]) \<and>
   getDoc [taskTwo] ''t1'' = None \<and>
   getDoc [taskTwo] ''t2'' = getDoc [taskOne, taskTwo] ''t2'' \<and>
   deleteTask [taskTwo] ''t1'' = (Resp 404 taskNotFound, [taskTwo]) \<and>
   docRef ''a/b'' = Inl InvalidArgument \<and>
   deleteTask [taskOne, taskTwo] ''a/b'' = (Resp 500 (ErrorMessage InvalidArgument), [taskOne, taskTwo])"
proof -
  have r9: "getRef [taskOne, taskTwo] [''t9''] = None"
    by (simp add: getRef_single getDoc_def taskOne_def taskTwo_def)
  have r1: "getRef [taskOne, taskTwo] [''t1''] = Some taskOne"
    by (simp add: getRef_single getDoc_def taskOne_def taskTwo_def)
  have f: "fst taskOne = ''t1''" by (simp add: taskOne_def)
  have dd: "deleteDoc [taskOne, taskTwo] ''t1'' = [taskTwo]"
    by (simp add: deleteDoc_def taskOne_def taskTwo_def)
  have a: "deleteTask [taskOne, taskTwo] ''t9'' = (Resp 404 taskNotFound, [taskOne, taskTwo])"
    using delete_outcomes [where taskId = "''t9''" and taskRef = "[''t9'']"
        and s = "[taskOne, taskTwo]"] docRef_t9 r9 by (simp only: simp_thms)
  from delete_outcomes [where taskId = "''t1''" and taskRef = "[''t1'']"
        and s = "[taskOne, taskTwo]" and d = taskOne] docRef_t1 r1
  obtain s' where s': "deleteTask [taskOne, taskTwo] ''t1'' = (Resp 200 taskDeleted, s')"
    and g: "getDoc s' (fst taskOne) = None"
    and o: "\<forall>j. j \<noteq> fst taskOne \<longrightarrow> getDoc s' j = getDoc [taskOne, taskTwo] j"
    and again: "deleteTask s' ''t1'' = (Resp 404 taskNotFound, s')"
    by (auto simp only: simp_thms)
  have e: "s' = [taskTwo]"
    using s' by (simp add: deleteTask_def docRef_t1 r1 f dd)
  have c: "deleteTask [taskOne, taskTwo] ''a/b''
      = (Resp 500 (ErrorMessage InvalidArgument), [taskOne, taskTwo])"
    using delete_outcomes [where taskId = "''a/b''" and err = InvalidArgument
        and s = "[taskOne, taskTwo]"] docRef_slash by (simp only: simp_thms)
  have o2: "getDoc [taskTwo] ''t2'' = getDoc [taskOne, taskTwo] ''t2''"
    using o unfolding e f by simp
  from docRef_t9 r9 a docRef_t1 r1 s' [unfolded e] g [unfolded e f] o2 again [unfolded e]
    docRef_slash c
  show ?thesis by (intro conjI)
qed

theorem delete_slash_id_counterexample:
  "getDoc [taskOne, taskTwo] ''a/b'' = None \<and>
   deleteTask [taskOne, taskTwo] ''a/b''
     = (Resp 500 (ErrorMessage InvalidArgument), [taskOne, taskTwo])"
  by (simp add: deleteTask_def docRef_slash getDoc_def taskOne_def taskTwo_def)
subsection \<open>Create\<close>

lemma post_outcomes:
  assumes "postTask e s reqBody = (r, s')"
  shows "(s' = s \<and> status r = 400) \<or>
         (\<exists>data. encodeFields (taskData e reqBody) = Inr data \<and> s' = s @ [(newId e, data)]
            \<and> newId e \<notin> fst ` set s)"
  using assms
  by (auto simp: postTask_def add_def split: sum.splits if_splits option.splits)

lemma encodeFields_lookup_Some:
  "encodeFields ws = Inr r \<Longrightarrow> map_of ws k = Some w \<Longrightarrow>
     \<exists>v. encodeValue w = Inr v \<and> map_of r k = Some v"
proof (induction ws arbitrary: r)
  case Nil
  then show ?case by simp
next
  case (Cons a ws)
  obtain k' w' where a: "a = (k', w')" by (cases a)
  from Cons.prems(1) a obtain v' r' where
    v: "encodeValue w' = Inr v'" and r': "encodeFields ws = Inr r'" and r: "r = (k', v') # r'"
    by (auto split: sum.splits)
  show ?case
  proof (cases "k = k'")
    case True
    with Cons.prems(2) a v r show ?thesis by simp
  next
    case False
    with Cons.prems(2) a have "map_of ws k = Some w" by simp
    from Cons.IH [OF r' this] False r show ?thesis by simp
  qed
qed

lemma stored_createdAt:
  assumes "encodeFields (taskData e reqBody) = Inr data"
  shows "getProp data ''createdAt'' = Some (JTimestamp (now e))"
proof -
  have "map_of (taskData e reqBody) ''createdAt'' = Some (DateObj (Some (now e)))"
    by (simp add: taskData_lookup)
  from encodeFields_lookup_Some [OF assms this]
  show ?thesis by (auto simp: getProp_def dest: fromDate_value)
qed

lemma stored_plain_field:
  assumes "encodeFields (taskData e reqBody) = Inr data"
    and "k \<noteq> ''completed''" and "k \<noteq> ''createdAt''" and "k \<noteq> ''date''"
  shows "getProp data k = map_of (spread [] reqBody) k"
  using encodeFields_lookup [OF assms(1), of k] assms(2-4)
  by (cases "map_of (spread [] reqBody) k") (simp_all add: getProp_def taskData_lookup)

lemma stored_completed:
  assumes "encodeFields (taskData e reqBody) = Inr data"
  shows "getProp data ''completed'' = Some (orFalse (getProp reqBody ''completed''))"
  using encodeFields_lookup [OF assms, of "''completed''"]
  by (simp add: getProp_def taskData_lookup)

lemma spread_absent: "k \<notin> fst ` set reqBody \<Longrightarrow> map_of (spread [] reqBody) k = None"
  by (simp add: map_of_eq_None_iff keys_spread)










lemma sample_post_full:
  "postTask envA [taskOne]
     [(''title'', JStr ''Call home''), (''date'', JStr ''2024-03-15''),
      (''createdAt'', JStr ''1999-12-31T00:00:00.000Z'')] =
    (Resp 201 (Value (JObj [(''id'', JStr ''idA''), (''title'', JStr ''Call home''),
        (''date'', JStr (isoString 1710460800000)),
        (''createdAt'', JStr (isoString 1710495000000)), (''completed'', JBool False)])),
     [taskOne, (''idA'', [(''title'', JStr ''Call home''), (''date'', JTimestamp 1710460800000),
                (''createdAt'', JTimestamp 1710495000000), (''completed'', JBool False)])])"
  unfolding postTask_def add_def taskData_def spread_def plain_def getProp_def orFalse_def
    envA_def sampleParse_def getDoc_def convertTimestamps_def taskOne_def
  by (simp add: toISOString_def toDate_def fromDate_def spread_def)

lemma sample_post_minimal:
  "postTask envA [taskOne] [(''title'', JStr ''Call home''), (''date'', JStr ''2024-03-15'')] =
    (Resp 201 (Value (JObj [(''id'', JStr ''idA''), (''title'', JStr ''Call home''),
        (''date'', JStr (isoString 1710460800000)),
        (''createdAt'', JStr (isoString 1710495000000)), (''completed'', JBool False)])),
     [taskOne, (''idA'', [(''title'', JStr ''Call home''), (''date'', JTimestamp 1710460800000),
                (''createdAt'', JTimestamp 1710495000000), (''completed'', JBool False)])])"
  unfolding postTask_def add_def taskData_def spread_def plain_def getProp_def orFalse_def
    envA_def sampleParse_def getDoc_def convertTimestamps_def taskOne_def
  by (simp add: toISOString_def toDate_def fromDate_def spread_def)

text \<open>
  Claim C10. Every create request either persists nothing and is answered with 400, or
  appends one task whose \<open>createdAt\<close> is the timestamp of the server clock read by the
  handler; \<open>createdAt\<close> is assigned after the payload is spread, so a \<open>createdAt\<close> in the
  payload is never what is stored.
\<close>

theorem post_createdAt_is_clock:
  assumes "postTask e s reqBody = (r, s')"
  shows "(s' = s \<and> status r = 400) \<or>
         (\<exists>data. s' = s @ [(newId e, data)] \<and>
                 getProp data ''createdAt'' = Some (JTimestamp (now e)))"
  using post_outcomes [OF assms] stored_createdAt by blast

theorem post_createdAt_is_clock_witness:
  "getProp [(''title'', JStr ''Call home''), (''date'', JStr ''2024-03-15''),
            (''createdAt'', JStr ''1999-12-31T00:00:00.000Z'')] ''createdAt''
     = Some (JStr ''1999-12-31T00:00:00.000Z'') \<and>
   (\<exists>r data. postTask envA [taskOne]
       [(''title'', JStr ''Call home''), (''date'', JStr ''2024-03-15''),
        (''createdAt'', JStr ''1999-12-31T00:00:00.000Z'')] = (r, [taskOne] @ [(''idA'', data)]) \<and>
     status r = 201 \<and> getProp data ''createdAt'' = Some (JTimestamp 1710495000000))"
proof -
  let ?b = "[(''title'', JStr ''Call home''), (''date'', JStr ''2024-03-15''),
             (''createdAt'', JStr ''1999-12-31T00:00:00.000Z'')]"
  obtain r s' where p: "postTask envA [taskOne] ?b = (r, s')" and r: "status r = 201"
    using sample_post_full by simp
  from post_createdAt_is_clock [OF p] r
  obtain data where "s' = [taskOne] @ [(newId envA, data)]"
    and "getProp data ''createdAt'' = Some (JTimestamp (now envA))"
    by auto
  with p r show ?thesis by (simp add: getProp_def envA_def)
qed

text \<open>
  Claim C9, as the code has it. A create request whose payload names no field other than
  \<open>title\<close> and \<open>date\<close> either persists nothing (answer 400), or appends one task under the
  generated identifier, which no existing task has, with \<open>completed\<close> the boolean false and
  with no \<open>priority\<close> field: the server applies no default to \<open>priority\<close> (the value
  \<^verbatim>\<open>medium\<close> is the initial state of the client's form).
\<close>

theorem post_minimal_payload:
  assumes "fst ` set reqBody \<subseteq> {''title'', ''date''}" and "postTask e s reqBody = (r, s')"
  shows "(s' = s \<and> status r = 400) \<or>
         (\<exists>data. s' = s @ [(newId e, data)] \<and> newId e \<notin> fst ` set s \<and>
                 getProp data ''completed'' = Some (JBool False) \<and>
                 getProp data ''priority'' = None)"
proof -
  from assms(1) have c: "''completed'' \<notin> fst ` set reqBody" and p: "''priority'' \<notin> fst ` set reqBody"
    by auto
  from c have c': "orFalse (getProp reqBody ''completed'') = JBool False"
    by (simp add: orFalse_def getProp_None_iff [THEN iffD2])
  from post_outcomes [OF assms(2)] show ?thesis
  proof
    assume "s' = s \<and> status r = 400"
    then show ?thesis by simp
  next
    assume "\<exists>data. encodeFields (taskData e reqBody) = Inr data \<and> s' = s @ [(newId e, data)]
            \<and> newId e \<notin> fst ` set s"
    then obtain data where d: "encodeFields (taskData e reqBody) = Inr data"
      and s': "s' = s @ [(newId e, data)]" and n: "newId e \<notin> fst ` set s" by blast
    have "getProp data ''completed'' = Some (JBool False)"
      using stored_completed [OF d] c' by simp
    moreover have "getProp data ''priority'' = None"
      using stored_plain_field [OF d, of "''priority''"] spread_absent [OF p] by simp
    ultimately show ?thesis using s' n by blast
  qed
qed

theorem post_minimal_payload_witness:
  "fst ` set [(''title'', JStr ''Call home''), (''date'', JStr ''2024-03-15'')]
     \<subseteq> {''title'', ''date''} \<and>
   (\<exists>r data. postTask envA [taskOne]
       [(''title'', JStr ''Call home''), (''date'', JStr ''2024-03-15'')]
         = (r, [taskOne] @ [(''idA'', data)]) \<and> status r = 201 \<and>
      ''idA'' \<notin> fst ` set [taskOne] \<and>
      getProp data ''completed'' = Some (JBool False) \<and> getProp data ''priority'' = None)"
proof -
  let ?b = "[(''title'', JStr ''Call home''), (''date'', JStr ''2024-03-15'')]"
  have k: "fst ` set ?b \<subseteq> {''title'', ''date''}" by simp
  obtain r s' where p: "postTask envA [taskOne] ?b = (r, s')" and r: "status r = 201"
    using sample_post_minimal by simp
  from post_minimal_payload [OF k p] r
  obtain data where "s' = [taskOne] @ [(newId envA, data)]"
    and "newId envA \<notin> fst ` set [taskOne]"
    and "getProp data ''completed'' = Some (JBool False)"
    and "getProp data ''priority'' = None"
    by auto
  with k p r show ?thesis by (simp add: envA_def)
qed

theorem post_priority_not_defaulted_counterexample:
  "fst ` set [(''title'', JStr ''Call home''), (''date'', JStr ''2024-03-15'')]
     = {''title'', ''date''} \<and>
   snd (postTask envA [taskOne] [(''title'', JStr ''Call home''), (''date'', JStr ''2024-03-15'')])
     = [taskOne, (''idA'', [(''title'', JStr ''Call home''), (''date'', JTimestamp 1710460800000),
                (''createdAt'', JTimestamp 1710495000000), (''completed'', JBool False)])] \<and>
   getProp [(''title'', JStr ''Call home''), (''date'', JTimestamp 1710460800000),
            (''createdAt'', JTimestamp 1710495000000), (''completed'', JBool False)] ''priority''
     \<noteq> Some (JStr ''medium'')"
  by (simp add: sample_post_minimal getProp_def)

subsection \<open>Update\<close>

lemma encodeFields_keys: "encodeFields ws = Inr r \<Longrightarrow> map fst r = map fst ws"
proof (induction ws arbitrary: r)
  case Nil
  then show ?case by simp
next
  case (Cons a ws)
  obtain k' w' where a: "a = (k', w')" by (cases a)
  from Cons.prems a obtain v' r' where
    "encodeFields ws = Inr r'" and "r = (k', v') # r'"
    by (auto split: sum.splits)
  with Cons.IH a show ?case by simp
qed

lemma updateData_keys: "fst ` set (updateData e reqBody) \<subseteq> insert ''date'' (fst ` set reqBody)"
proof -
  have "fst ` set (plain ob) = fst ` set ob" for ob
    by (force simp: plain_def)
  then show ?thesis
    by (auto simp: updateData_def Let_def dom_update keys_spread)
qed

lemma splitDot_not_Nil: "splitDot k \<noteq> []"
  by (induction k) (auto split: list.splits)

lemma splitDot_date: "splitDot ''date'' = [''date'']"
  by simp

lemma setPath_other:
  "p \<noteq> [] \<Longrightarrow> hd p \<noteq> k \<Longrightarrow> map_of (setPath p v ob) k = map_of ob k"
  by (cases "(p, v, ob)" rule: setPath.cases) (auto simp: update_conv')

lemma applyUpdate_other:
  "\<forall>k' \<in> fst ` set flds. hd (splitDot k') \<noteq> k \<Longrightarrow>
     getProp (applyUpdate flds ob) k = getProp ob k"
  unfolding applyUpdate_def getProp_def
proof (induction flds arbitrary: ob)
  case Nil
  then show ?case by simp
next
  case (Cons a flds)
  have "map_of (setPath (splitDot (fst a)) (snd a) ob) k = map_of ob k"
    using Cons.prems by (intro setPath_other) (auto simp: splitDot_not_Nil)
  with Cons show ?case by simp
qed

lemma getDoc_map_update:
  "getDoc (map (\<lambda>d. if fst d = i then (i, f (snd d)) else d) s) j =
     (if j = i then map_option f (getDoc s j) else getDoc s j)"
  unfolding getDoc_def by (induction s) auto

lemma put_outcomes:
  assumes "putTask e s i reqBody = (r, s')"
  shows "s' = s \<or>
         (\<exists>flds i'. encodeFields (updateData e reqBody) = Inr flds \<and>
            s' = map (\<lambda>d. if fst d = i' then (i', applyUpdate flds (snd d)) else d) s)"
  using assms
  by (auto simp: putTask_def update_def split: option.splits sum.splits if_splits)

text \<open>
  Claim C2, as the code has it. An update never changes the identifier of a task. It
  leaves the \<open>createdAt\<close> of every task as it was whenever no key of the payload is the
  field path \<open>createdAt\<close> or a path below it; nothing in the handler guards the field, so
  a payload that names \<open>createdAt\<close> overwrites it.
\<close>

theorem put_preserves_createdAt:
  assumes "\<forall>k \<in> fst ` set reqBody. hd (splitDot k) \<noteq> ''createdAt''"
      and "getDoc s j = Some d"
  shows "map fst (snd (putTask e s i reqBody)) = map fst s \<and>
         (\<exists>d'. getDoc (snd (putTask e s i reqBody)) j = Some d' \<and>
               getProp d' ''createdAt'' = getProp d ''createdAt'')"
proof -
  obtain r s' where p: "putTask e s i reqBody = (r, s')" by (cases "putTask e s i reqBody")
  from put_outcomes [OF p] show ?thesis
  proof
    assume "s' = s"
    with p assms(2) show ?thesis by simp
  next
    assume "\<exists>flds i'. encodeFields (updateData e reqBody) = Inr flds \<and>
            s' = map (\<lambda>d. if fst d = i' then (i', applyUpdate flds (snd d)) else d) s"
    then obtain flds i' where f: "encodeFields (updateData e reqBody) = Inr flds"
      and s': "s' = map (\<lambda>d. if fst d = i' then (i', applyUpdate flds (snd d)) else d) s"
      by blast
    have "fst ` set flds = fst ` set (updateData e reqBody)"
      using encodeFields_keys [OF f] by (metis set_map)
    with updateData_keys [of e reqBody]
    have "fst ` set flds \<subseteq> insert ''date'' (fst ` set reqBody)" by simp
    then have sub: "fst ` set flds \<subseteq> insert ''date'' (fst ` set reqBody)" .
    have "hd (splitDot k') \<noteq> ''createdAt''" if k': "k' \<in> fst ` set flds" for k'
    proof (cases "k' = ''date''")
      case True
      then show ?thesis by simp
    next
      case False
      with k' sub have "k' \<in> fst ` set reqBody" by (meson insertE subsetD)
      with assms(1) show ?thesis by (rule bspec)
    qed
    then have "\<forall>k' \<in> fst ` set flds. hd (splitDot k') \<noteq> ''createdAt''" ..
    then have g: "getProp (applyUpdate flds d) ''createdAt'' = getProp d ''createdAt''"
      by (rule applyUpdate_other)
    have "map fst s' = map fst s"
      unfolding s' by (induction s) auto
    moreover have "\<exists>d'. getDoc s' j = Some d' \<and> getProp d' ''createdAt'' = getProp d ''createdAt''"
      using g assms(2) unfolding s' getDoc_map_update by auto
    ultimately show ?thesis
      using p by simp
  qed
qed

theorem put_preserves_createdAt_witness:
  "hd (splitDot ''completed'') \<noteq> ''createdAt'' \<and> hd (splitDot ''date'') \<noteq> ''createdAt'' \<and>
   getDoc [taskOne, taskTwo] ''t2'' = Some (snd taskTwo) \<and>
   snd (putTask envA [taskOne, taskTwo] ''t2''
          [(''completed'', JBool True), (''date'', JStr ''2024-03-15'')])
     = [taskOne, (''t2'', [(''title'', JStr ''Buy milk''), (''date'', JTimestamp 1710460800000),
          (''createdAt'', JTimestamp 1710300000000), (''completed'', JBool True)])] \<and>
   (\<exists>d'. getDoc (snd (putTask envA [taskOne, taskTwo] ''t2''
                  [(''completed'', JBool True), (''date'', JStr ''2024-03-15'')])) ''t2'' = Some d' \<and>
         getProp d' ''createdAt'' = Some (JTimestamp 1710300000000))"
proof -
  let ?b = "[(''completed'', JBool True), (''date'', JStr ''2024-03-15'')]"
  have k: "\<forall>k \<in> fst ` set ?b. hd (splitDot k) \<noteq> ''createdAt''" by simp
  have g: "getDoc [taskOne, taskTwo] ''t2'' = Some (snd taskTwo)"
    by (simp add: getDoc_def taskOne_def taskTwo_def)
  have c: "getProp (snd taskTwo) ''createdAt'' = Some (JTimestamp 1710300000000)"
    by (simp add: getProp_def taskTwo_def)
  have s: "snd (putTask envA [taskOne, taskTwo] ''t2'' ?b)
     = [taskOne, (''t2'', [(''title'', JStr ''Buy milk''), (''date'', JTimestamp 1710460800000),
          (''createdAt'', JTimestamp 1710300000000), (''completed'', JBool True)])]"
    unfolding putTask_def update_def updateData_def spread_def plain_def getProp_def
      envA_def sampleParse_def getDoc_def convertTimestamps_def taskOne_def taskTwo_def
      applyUpdate_def validFieldPath_def docRef_def getRef_def Let_def
    by (simp add: toISOString_def toDate_def fromDate_def spread_def)
  have "\<exists>d'. getDoc (snd (putTask envA [taskOne, taskTwo] ''t2'' ?b)) ''t2'' = Some d' \<and>
          getProp d' ''createdAt'' = getProp (snd taskTwo) ''createdAt''"
    using put_preserves_createdAt [OF k g, of envA "''t2''"] by (rule conjunct2)
  then have t: "\<exists>d'. getDoc (snd (putTask envA [taskOne, taskTwo] ''t2'' ?b)) ''t2'' = Some d' \<and>
          getProp d' ''createdAt'' = Some (JTimestamp 1710300000000)"
    unfolding c .
  have k': "hd (splitDot ''completed'') \<noteq> ''createdAt'' \<and> hd (splitDot ''date'') \<noteq> ''createdAt''"
    by simp
  show ?thesis by (rule conjI [OF k' [THEN conjunct1] conjI [OF k' [THEN conjunct2] conjI [OF g conjI [OF s t]]]])
qed

theorem put_overwrites_createdAt_counterexample:
  "getDoc [taskOne] ''t1'' = Some (snd taskOne) \<and>
   getProp (snd taskOne) ''createdAt'' = Some (JTimestamp 1710400000000) \<and>
   putTask envA [taskOne] ''t1'' [(''createdAt'', JStr ''1999-12-31T00:00:00.000Z'')] =
     (Resp 200 (Value (JObj [(''id'', JStr ''t1''), (''title'', JStr ''Write report''),
         (''date'', JStr (isoString 1710504000000)),
         (''createdAt'', JStr ''1999-12-31T00:00:00.000Z''), (''completed'', JBool True)])),
      [(''t1'', [(''title'', JStr ''Write report''), (''date'', JTimestamp 1710504000000),
          (''createdAt'', JStr ''1999-12-31T00:00:00.000Z''), (''completed'', JBool True)])])"
  unfolding putTask_def update_def updateData_def spread_def plain_def getProp_def
    envA_def sampleParse_def getDoc_def convertTimestamps_def taskOne_def
    applyUpdate_def validFieldPath_def docRef_def getRef_def Let_def
  by (simp add: toISOString_def toDate_def fromDate_def spread_def)

lemma mapE_empty_iff: "mapE f xs = Inr [] \<longleftrightarrow> xs = []"
  by (cases xs) (auto split: sum.splits)

lemma responses_are_shaped:
  "(getTasks s = Resp 200 (Value v) \<longrightarrow>
      (\<exists>ts. mapE convertTimestamps (orderByCreatedAtDesc s) = Inr ts \<and> v = JArr (map JObj ts))) \<and>
   (postTask e s reqBody = (Resp 201 (Value v), s') \<longrightarrow>
      (\<exists>d t. getDoc s' (newId e) = Some d \<and> convertTimestamps (newId e, d) = Inr t \<and> v = JObj t)) \<and>
   (putTask e s i reqBody = (Resp 200 (Value v), s') \<longrightarrow>
      (\<exists>i' d t. getDoc s' i' = Some d \<and> convertTimestamps (i', d) = Inr t \<and> v = JObj t))"
proof (intro conjI impI)
  assume "getTasks s = Resp 200 (Value v)"
  then show "\<exists>ts. mapE convertTimestamps (orderByCreatedAtDesc s) = Inr ts \<and> v = JArr (map JObj ts)"
    by (auto simp: getTasks_def Let_def split: sum.splits if_splits)
next
  assume "postTask e s reqBody = (Resp 201 (Value v), s')"
  then show "\<exists>d t. getDoc s' (newId e) = Some d \<and> convertTimestamps (newId e, d) = Inr t \<and> v = JObj t"
    by (auto simp: postTask_def add_def split: sum.splits option.splits if_splits)
next
  assume "putTask e s i reqBody = (Resp 200 (Value v), s')"
  then obtain taskRef u t where "getRef s' taskRef = Some u" "convertTimestamps u = Inr t" "v = JObj t"
    by (auto simp: putTask_def split: sum.splits option.splits)
  moreover from this(1) have "getDoc s' (fst u) = Some (snd u)" by (simp add: getRef_Some)
  ultimately show "\<exists>i' d t. getDoc s' i' = Some d \<and> convertTimestamps (i', d) = Inr t \<and> v = JObj t"
    by (metis prod.collapse)
qed

text \<open>
  What the shaping step does on a document whose top-level fields are convertible and
  which has no field named \<open>id\<close>: every top-level timestamp is replaced by its ISO-8601
  text, every other top-level value is passed through unchanged, no other key appears
  except \<open>id\<close>, and \<open>id\<close> is the identifier of the document.
\<close>

lemma convertTimestamps_contract:
  assumes "distinct (map fst data)" and "list_all convertible (map snd data)"
  shows "\<exists>r. convertTimestamps (i, data) = Inr r \<and>
     (\<forall>k ms. getProp data k = Some (JTimestamp ms) \<longrightarrow>
        getProp r k = Some (JStr (isoString ms))) \<and>
     (\<forall>k v. getProp data k = Some v \<and> (\<forall>ms. v \<noteq> JTimestamp ms) \<longrightarrow> getProp r k = Some v) \<and>
     (getProp data ''id'' = None \<longrightarrow> getProp r ''id'' = Some (JStr i)) \<and>
     (\<forall>k. k \<noteq> ''id'' \<and> getProp data k = None \<longrightarrow> getProp r k = None)"
proof -
  from convertTimestamps_shape [OF assms, of i] obtain r where
    r: "convertTimestamps (i, data) = Inr r" and
    l: "\<And>k. getProp r k =
              (case getProp data k of
                 Some v \<Rightarrow> Some (shapedValue v)
               | None \<Rightarrow> if k = ''id'' then Some (JStr i) else None)"
    by blast
  have sv: "shapedValue v = v" if "\<forall>ms. v \<noteq> JTimestamp ms" for v
    using that by (cases v) auto
  show ?thesis
  proof (intro exI conjI allI impI)
    show "convertTimestamps (i, data) = Inr r" by (fact r)
  next
    fix k ms
    assume "getProp data k = Some (JTimestamp ms)"
    then show "getProp r k = Some (JStr (isoString ms))" by (simp add: l)
  next
    fix k v
    assume "getProp data k = Some v \<and> (\<forall>ms. v \<noteq> JTimestamp ms)"
    then show "getProp r k = Some v" by (simp add: l sv)
  next
    assume "getProp data ''id'' = None"
    then show "getProp r ''id'' = Some (JStr i)" by (simp add: l)
  next
    fix k
    assume "k \<noteq> ''id'' \<and> getProp data k = None"
    then show "getProp r k = None" by (simp add: l)
  qed
qed

lemma shape_taskOne:
  "convertTimestamps taskOne =
     Inr [(''id'', JStr ''t1''), (''title'', JStr ''Write report''),
          (''date'', JStr (isoString 1710504000000)),
          (''createdAt'', JStr (isoString 1710400000000)), (''completed'', JBool True)]"
  by (simp add: convertTimestamps_def taskOne_def spread_def toISOString_def toDate_def)

lemma iso_sample_noon: "isoString 1710504000000 = ''2024-03-15T12:00:00.000Z''"
  unfolding isoString_def civil_def msPerDay_def Let_def
  by (simp add: isoYear_def pad2_def pad3_def pad4_def digit_def)

lemma convertTimestamps_contract_sample:
  "distinct (map fst (snd taskOne)) \<and> list_all convertible (map snd (snd taskOne)) \<and>
   getProp (snd taskOne) ''date'' = Some (JTimestamp 1710504000000) \<and>
   getProp (snd taskOne) ''title'' = Some (JStr ''Write report'') \<and>
   getProp (snd taskOne) ''id'' = None \<and>
   (\<exists>r. convertTimestamps (''t1'', snd taskOne) = Inr r \<and>
        getProp r ''date'' = Some (JStr ''2024-03-15T12:00:00.000Z'') \<and>
        getProp r ''title'' = Some (JStr ''Write report'') \<and>
        getProp r ''id'' = Some (JStr ''t1'') \<and>
        getProp r ''priority'' = None)"
proof -
  have d: "distinct (map fst (snd taskOne))" by (simp add: taskOne_def)
  have c: "list_all convertible (map snd (snd taskOne))" by (simp add: taskOne_def)
  have g1: "getProp (snd taskOne) ''date'' = Some (JTimestamp 1710504000000)"
    and g2: "getProp (snd taskOne) ''title'' = Some (JStr ''Write report'')"
    and g3: "getProp (snd taskOne) ''id'' = None"
    and g4: "getProp (snd taskOne) ''priority'' = None"
    by (simp_all add: taskOne_def getProp_def)
  from convertTimestamps_contract [OF d c, of "''t1''"] obtain r where
    h: "convertTimestamps (''t1'', snd taskOne) = Inr r \<and>
     (\<forall>k ms. getProp (snd taskOne) k = Some (JTimestamp ms) \<longrightarrow>
        getProp r k = Some (JStr (isoString ms))) \<and>
     (\<forall>k v. getProp (snd taskOne) k = Some v \<and> (\<forall>ms. v \<noteq> JTimestamp ms) \<longrightarrow>
        getProp r k = Some v) \<and>
     (getProp (snd taskOne) ''id'' = None \<longrightarrow> getProp r ''id'' = Some (JStr ''t1'')) \<and>
     (\<forall>k. k \<noteq> ''id'' \<and> getProp (snd taskOne) k = None \<longrightarrow> getProp r k = None)"
    by (elim exE)
  note r = h [THEN conjunct1]
  note t = h [THEN conjunct2, THEN conjunct1, rule_format]
  note o = h [THEN conjunct2, THEN conjunct2, THEN conjunct1, rule_format]
  note i = h [THEN conjunct2, THEN conjunct2, THEN conjunct2, THEN conjunct1, rule_format]
  note n = h [THEN conjunct2, THEN conjunct2, THEN conjunct2, THEN conjunct2, rule_format]
  have r1: "getProp r ''date'' = Some (JStr ''2024-03-15T12:00:00.000Z'')"
    using t [OF g1] by (simp only: iso_sample_noon)
  have r2: "getProp r ''title'' = Some (JStr ''Write report'')"
    by (rule o) (simp add: g2)
  have r3: "getProp r ''id'' = Some (JStr ''t1'')"
    by (rule i [OF g3])
  have r4: "getProp r ''priority'' = None"
    by (rule n) (simp add: g4)
  have "\<exists>r. convertTimestamps (''t1'', snd taskOne) = Inr r \<and>
        getProp r ''date'' = Some (JStr ''2024-03-15T12:00:00.000Z'') \<and>
        getProp r ''title'' = Some (JStr ''Write report'') \<and>
        getProp r ''id'' = Some (JStr ''t1'') \<and>
        getProp r ''priority'' = None"
    by (rule exI [of _ r]) (simp only: r r1 r2 r3 r4 simp_thms)
  with d c g1 g2 g3 show ?thesis by (intro conjI)
qed

text \<open>
  Claim C3. The shaping step is to give every retrieved document a mapping whose \<open>id\<close> is
  the identifier the store assigned, with every temporal value as ISO-8601 text and every
  other field unchanged. The code writes \<^verbatim>\<open>{ id: doc.id, ...converted }\<close>: the identifier
  is set first and the fields are spread over it, so on a document that has a field named
  \<open>id\<close> the mapping carries that field and not the identifier; and its test
  \<^verbatim>\<open>'toDate' in data[key]\<close> also holds of a plain map with a key \<^verbatim>\<open>toDate\<close>, on which the
  call of \<^verbatim>\<open>toDate\<close> throws, so that no mapping is produced at all.
\<close>

theorem convertTimestamps_id_shadowed:
  "convertTimestamps (''abc'', [(''id'', JStr ''zzz''), (''title'', JStr ''Write report''),
                                (''date'', JTimestamp 1710504000000)])
     = Inr [(''id'', JStr ''zzz''), (''title'', JStr ''Write report''),
            (''date'', JStr ''2024-03-15T12:00:00.000Z'')] \<and>
   convertTimestamps (''abc'', [(''title'', JStr ''Write report''),
                                (''meta'', JObj [(''toDate'', JNum 1)])])
     = Inl TypeError"
  by (simp add: convertTimestamps_def spread_def toISOString_def toDate_def iso_sample_noon)
subsection \<open>Listing\<close>

lemma keys_setPath: "fst ` set ob \<subseteq> fst ` set (setPath p v ob)"
  by (cases "(p, v, ob)" rule: setPath.cases) (auto simp: dom_update)

lemma keys_applyUpdate: "fst ` set ob \<subseteq> fst ` set (applyUpdate flds ob)"
  unfolding applyUpdate_def
proof (induction flds arbitrary: ob)
  case Nil
  then show ?case by simp
next
  case (Cons a flds)
  have "fst ` set ob \<subseteq> fst ` set (setPath (splitDot (fst a)) (snd a) ob)"
    by (rule keys_setPath)
  also have "\<dots> \<subseteq> fst ` set (foldl (\<lambda>a kv. setPath (splitDot (fst kv)) (snd kv) a)
                               (setPath (splitDot (fst a)) (snd a) ob) flds)"
    by (rule Cons.IH)
  finally show ?case by simp
qed

lemma hasCreatedAt_iff: "hasCreatedAt d \<longleftrightarrow> ''createdAt'' \<in> fst ` set (snd d)"
  by (simp add: hasCreatedAt_def getProp_None_iff)

lemma reachable_hasCreatedAt: "reachable s \<Longrightarrow> list_all hasCreatedAt s"
proof (induction rule: reachable.induct)
  case initial
  show ?case by simp
next
  case (created s e reqBody)
  obtain r s' where p: "postTask e s reqBody = (r, s')" by (cases "postTask e s reqBody")
  from post_outcomes [OF p] created.IH p show ?case
    by (auto simp: hasCreatedAt_def stored_createdAt)
next
  case (updated s e taskId reqBody)
  obtain r s' where p: "putTask e s taskId reqBody = (r, s')"
    by (cases "putTask e s taskId reqBody")
  from put_outcomes [OF p] show ?case
  proof
    assume "s' = s"
    with updated.IH p show ?thesis by simp
  next
    assume "\<exists>flds i'. encodeFields (updateData e reqBody) = Inr flds \<and>
            s' = map (\<lambda>d. if fst d = i' then (i', applyUpdate flds (snd d)) else d) s"
    then obtain flds i' where
      s': "s' = map (\<lambda>d. if fst d = i' then (i', applyUpdate flds (snd d)) else d) s"
      by blast
    have "hasCreatedAt (i', applyUpdate flds (snd d))" if "hasCreatedAt d" for d
      using that keys_applyUpdate [of "snd d" flds] by (auto simp: hasCreatedAt_iff)
    with updated.IH show ?thesis
      unfolding p s' by (auto simp: list_all_iff)
  qed
next
  case (deleted s taskId)
  then show ?case
    by (auto simp: deleteTask_def deleteDoc_def list_all_iff split: option.splits sum.splits)
qed

lemma orderBy_all: "list_all hasCreatedAt s \<Longrightarrow> mset (orderByCreatedAtDesc s) = mset s"
  by (simp add: orderByCreatedAtDesc_def list_all_iff)

lemma orderBy_sorted: "sorted_wrt (\<lambda>a b. orderKey b \<le> orderKey a) (orderByCreatedAtDesc s)"
proof -
  have "sorted (map orderKey (sort_key orderKey (filter hasCreatedAt s)))"
    by (rule sorted_sort_key)
  then have "sorted_wrt (\<lambda>a b. orderKey a \<le> orderKey b) (sort_key orderKey (filter hasCreatedAt s))"
    by (simp add: sorted_map)
  then show ?thesis
    by (simp add: orderByCreatedAtDesc_def sorted_wrt_rev)
qed

lemma orderBy_createdAt_desc: "sorted_wrt (\<lambda>a b. createdAtLe b a) (orderByCreatedAtDesc s)"
proof (rule sorted_wrt_mono_rel [OF _ orderBy_sorted])
  fix a b :: doc
  assume "orderKey b \<le> orderKey a"
  then show "createdAtLe b a"
    by (auto simp: createdAtLe_def less_eq_prod_def)
qed

lemma createdAtLe_timestamps:
  assumes "getProp (snd a) ''createdAt'' = Some (JTimestamp x)"
      and "getProp (snd b) ''createdAt'' = Some (JTimestamp y)"
  shows "createdAtLe a b \<longleftrightarrow> x \<le> y"
  using assms by (auto simp: createdAtLe_def orderKey_def)

lemma mapE_shapeable:
  "list_all shapeable ds \<Longrightarrow> \<exists>ts. mapE convertTimestamps ds = Inr ts \<and> length ts = length ds"
proof (induction ds)
  case Nil
  then show ?case by simp
next
  case (Cons d ds)
  then obtain ts where ts: "mapE convertTimestamps ds = Inr ts" "length ts = length ds" by auto
  from Cons.prems have "convertFields (snd d) [] =
      Inr (spread [] (map (\<lambda>kv. (fst kv, shapedValue (snd kv))) (snd d)))"
    by (intro convertFields_spread) (simp add: shapeable_def)
  then obtain t where "convertTimestamps d = Inr t"
    by (simp add: convertTimestamps_def)
  with ts show ?case by simp
qed

lemma post_created_doc:
  assumes "postTask e s reqBody = (Resp 201 (Value v), s')"
  shows "\<exists>data t. s' = s @ [(newId e, data)] \<and> newId e \<notin> fst ` set s \<and>
           getProp data ''createdAt'' = Some (JTimestamp (now e)) \<and>
           convertTimestamps (newId e, data) = Inr t \<and> v = JObj t"
proof -
  from post_outcomes [OF assms] obtain data where
    d: "encodeFields (taskData e reqBody) = Inr data" and s': "s' = s @ [(newId e, data)]"
    and n: "newId e \<notin> fst ` set s"
    by auto
  from responses_are_shaped [of s v e reqBody s'] assms obtain d' t where
    "getDoc s' (newId e) = Some d'" and t: "convertTimestamps (newId e, d') = Inr t" "v = JObj t"
    by blast
  with s' n have "d' = data" by (simp add: getDoc_append_new)
  with d s' n t show ?thesis by (auto simp: stored_createdAt)
qed

lemma list_two_created:
  assumes a: "postTask eA [] reqA = (Resp 201 (Value vA), sA)"
      and b: "postTask eB sA reqB = (Resp 201 (Value vB), sB)"
      and lt: "now eA < now eB"
  shows "getTasks sB = Resp 200 (Value (JArr [vB, vA]))"
proof -
  from post_created_doc [OF a] obtain dA tA where
    sA: "sA = [(newId eA, dA)]" and cA: "getProp dA ''createdAt'' = Some (JTimestamp (now eA))"
    and tA: "convertTimestamps (newId eA, dA) = Inr tA" "vA = JObj tA"
    by auto
  from post_created_doc [OF b] obtain dB tB where
    sB: "sB = sA @ [(newId eB, dB)]" and cB: "getProp dB ''createdAt'' = Some (JTimestamp (now eB))"
    and tB: "convertTimestamps (newId eB, dB) = Inr tB" "vB = JObj tB"
    by auto
  have k: "orderKey (newId eA, dA) \<le> orderKey (newId eB, dB)"
    using cA cB lt by (simp add: orderKey_def less_eq_prod_def)
  have "orderByCreatedAtDesc sB = [(newId eB, dB), (newId eA, dA)]"
    using cA cB k by (simp add: orderByCreatedAtDesc_def sA sB hasCreatedAt_def)
  with tA tB show ?thesis by (simp add: getTasks_def)
qed

text \<open>
  Claim C5, as the code has it. On the empty collection the list is the empty array,
  answered with 200. On a collection the handlers can produce, all of whose documents can
  be shaped, the list is answered with 200 and holds the shaping of every task, each
  once, in the order of the query: by falling \<open>createdAt\<close>, so that of two tasks whose
  \<open>createdAt\<close> are timestamps the one listed first is not the older. A task A created on
  the empty collection and a task B created after it, at a later reading of the clock,
  are listed as B, A; \<open>createdAt\<close> is the only trace of the order of creation, so two
  tasks created at the same reading of the clock are listed by their identifiers.
\<close>

theorem list_newest_first:
  "getTasks [] = Resp 200 (Value (JArr [])) \<and>
   (reachable s \<and> list_all shapeable s \<longrightarrow>
      (\<exists>docs ts. getTasks s = Resp 200 (Value (JArr (map JObj ts))) \<and>
         mapE convertTimestamps docs = Inr ts \<and> mset docs = mset s \<and>
         sorted_wrt (\<lambda>a b. createdAtLe b a) docs \<and>
         (\<forall>i j x y. i < j \<and> j < length docs \<and>
            getProp (snd (docs ! i)) ''createdAt'' = Some (JTimestamp x) \<and>
            getProp (snd (docs ! j)) ''createdAt'' = Some (JTimestamp y) \<longrightarrow> y \<le> x))) \<and>
   (postTask eA [] reqA = (Resp 201 (Value vA), sA) \<and>
    postTask eB sA reqB = (Resp 201 (Value vB), sB) \<and> now eA < now eB \<longrightarrow>
      getTasks sB = Resp 200 (Value (JArr [vB, vA])))"
proof (intro conjI impI)
  show "getTasks [] = Resp 200 (Value (JArr []))"
    by (simp add: getTasks_def orderByCreatedAtDesc_def)
next
  assume h: "reachable s \<and> list_all shapeable s"
  let ?docs = "orderByCreatedAtDesc s"
  from h have m: "mset ?docs = mset s"
    by (intro orderBy_all reachable_hasCreatedAt) simp
  then have "set ?docs = set s" by (rule mset_eq_setD)
  with h have "list_all shapeable ?docs" by (simp add: list_all_iff)
  then obtain ts where ts: "mapE convertTimestamps ?docs = Inr ts"
    using mapE_shapeable by blast
  have g: "getTasks s = Resp 200 (Value (JArr (map JObj ts)))"
  proof (cases "?docs = []")
    case True
    with ts show ?thesis by (simp add: getTasks_def)
  next
    case False
    with ts show ?thesis by (simp add: getTasks_def)
  qed
  have o: "sorted_wrt (\<lambda>a b. createdAtLe b a) ?docs" by (rule orderBy_createdAt_desc)
  have "y \<le> x" if "i < j \<and> j < length ?docs \<and>
            getProp (snd (?docs ! i)) ''createdAt'' = Some (JTimestamp x) \<and>
            getProp (snd (?docs ! j)) ''createdAt'' = Some (JTimestamp y)" for i j x y
  proof -
    from that o have "createdAtLe (?docs ! j) (?docs ! i)"
      by (simp add: sorted_wrt_iff_nth_less)
    with that show ?thesis by (simp add: createdAtLe_timestamps)
  qed
  with g ts m o show "\<exists>docs ts. getTasks s = Resp 200 (Value (JArr (map JObj ts))) \<and>
         mapE convertTimestamps docs = Inr ts \<and> mset docs = mset s \<and>
         sorted_wrt (\<lambda>a b. createdAtLe b a) docs \<and>
         (\<forall>i j x y. i < j \<and> j < length docs \<and>
            getProp (snd (docs ! i)) ''createdAt'' = Some (JTimestamp x) \<and>
            getProp (snd (docs ! j)) ''createdAt'' = Some (JTimestamp y) \<longrightarrow> y \<le> x)"
    by blast
next
  assume "postTask eA [] reqA = (Resp 201 (Value vA), sA) \<and>
    postTask eB sA reqB = (Resp 201 (Value vB), sB) \<and> now eA < now eB"
  then show "getTasks sB = Resp 200 (Value (JArr [vB, vA]))"
    by (auto intro: list_two_created)
qed

lemma sample_create_A: "postTask envA [] bodyA = (Resp 201 (Value shapedA), [docA])"
  unfolding postTask_def add_def taskData_def spread_def plain_def getProp_def orFalse_def
    envA_def sampleParse_def getDoc_def convertTimestamps_def bodyA_def docA_def shapedA_def
  by (simp add: toISOString_def toDate_def fromDate_def spread_def)

lemma sample_create_B: "postTask envB [docA] bodyB = (Resp 201 (Value shapedB), [docA, docB])"
  unfolding postTask_def add_def taskData_def spread_def plain_def getProp_def orFalse_def
    envB_def sampleParse_def getDoc_def convertTimestamps_def bodyB_def docA_def docB_def
    shapedB_def
  by (simp add: toISOString_def toDate_def fromDate_def spread_def)

theorem list_newest_first_witness:
  "reachable [docA, docB] \<and> list_all shapeable [docA, docB] \<and>
   postTask envA [] bodyA = (Resp 201 (Value shapedA), [docA]) \<and>
   postTask envB [docA] bodyB = (Resp 201 (Value shapedB), [docA, docB]) \<and>
   now envA < now envB \<and>
   getTasks [docA, docB] = Resp 200 (Value (JArr [shapedB, shapedA]))"
proof -
  have "reachable (snd (postTask envB (snd (postTask envA [] bodyA)) bodyB))"
    by (intro reachable.created reachable.initial)
  then have r: "reachable [docA, docB]"
    by (simp add: sample_create_A sample_create_B)
  have sh: "list_all shapeable [docA, docB]"
    by (simp add: shapeable_def docA_def docB_def)
  have lt: "now envA < now envB" by (simp add: envA_def envB_def)
  have "getTasks [docA, docB] = Resp 200 (Value (JArr [shapedB, shapedA]))"
    using list_newest_first [where s = "[docA, docB]" and eA = envA and reqA = bodyA
        and vA = shapedA and sA = "[docA]" and eB = envB and reqB = bodyB and vB = shapedB
        and sB = "[docA, docB]"]
      sample_create_A sample_create_B lt
    by (simp only: simp_thms)
  with r sh lt sample_create_A sample_create_B show ?thesis by (intro conjI)
qed


lemma sample_create_first: "postTask envFirst [] bodyA = (Resp 201 (Value shapedFirst), [docFirst])"
  unfolding postTask_def add_def taskData_def spread_def plain_def getProp_def orFalse_def
    envFirst_def sampleParse_def getDoc_def convertTimestamps_def bodyA_def docFirst_def
    shapedFirst_def
  by (simp add: toISOString_def toDate_def fromDate_def spread_def)

lemma sample_create_second:
  "postTask envA [docFirst] bodyB = (Resp 201 (Value shapedSecond), [docFirst, docSecond])"
  unfolding postTask_def add_def taskData_def spread_def plain_def getProp_def orFalse_def
    envA_def sampleParse_def getDoc_def convertTimestamps_def bodyB_def docFirst_def
    docSecond_def shapedSecond_def
  by (simp add: toISOString_def toDate_def fromDate_def spread_def)

theorem list_same_instant_counterexample:
  "now envFirst = now envA \<and>
   postTask envFirst [] bodyA = (Resp 201 (Value shapedFirst), [docFirst]) \<and>
   postTask envA [docFirst] bodyB = (Resp 201 (Value shapedSecond), [docFirst, docSecond]) \<and>
   getTasks [docFirst, docSecond] = Resp 200 (Value (JArr [shapedFirst, shapedSecond]))"
proof -
  have n: "now envFirst = now envA" by (simp add: envFirst_def envA_def)
  have k: "orderKey docSecond < orderKey docFirst"
    by (simp add: orderKey_def getProp_def docFirst_def docSecond_def less_prod_def)
  then have "\<not> orderKey docFirst \<le> orderKey docSecond" by (simp only: not_le)
  then have "sort_key orderKey [docFirst, docSecond] = [docSecond, docFirst]"
    by simp
  then have o: "orderByCreatedAtDesc [docFirst, docSecond] = [docFirst, docSecond]"
    by (simp add: orderByCreatedAtDesc_def hasCreatedAt_def getProp_def docFirst_def
          docSecond_def)
  have c: "convertTimestamps docFirst = Inr (case shapedFirst of JObj t \<Rightarrow> t)"
    "convertTimestamps docSecond = Inr (case shapedSecond of JObj t \<Rightarrow> t)"
    by (simp_all add: convertTimestamps_def docFirst_def docSecond_def shapedFirst_def
          shapedSecond_def spread_def toISOString_def toDate_def)
  have "getTasks [docFirst, docSecond] = Resp 200 (Value (JArr [shapedFirst, shapedSecond]))"
    unfolding getTasks_def o Let_def by (simp add: c) (simp add: shapedFirst_def shapedSecond_def)
  with n sample_create_first sample_create_second show ?thesis by (intro conjI)
qed
subsection \<open>Statistics: the tasks of today\<close>






lemma iso_sample_day_before: "isoString 1710417600000 = ''2024-03-14T12:00:00.000Z''"
  unfolding isoString_def civil_def msPerDay_def Let_def
  by (simp add: isoYear_def pad2_def pad3_def pad4_def digit_def)

















subsection \<open>The completion rate\<close>

text \<open>
  The rate is computed in double precision: the quotient is rounded, then the product
  with 100. Each rounding is off by at most one part in \<open>2\<^sup>5\<^sup>3\<close>, which bounds the distance
  of the printed digits from the exact percentage.
\<close>

subsection \<open>Statistics: the completion rate\<close>
























end
